theory Spec2Isabelle
  imports
    Main
    "HOL-Library.Word"
    "HOL-Library.AList"
    "HOL-Library.Multiset"
    "HOL-Library.Char_ord"
    "HOL-Library.List_Lexorder"
begin

section \<open>The Zookeeper commands of vtctl\<close>

text \<open>
  \<^verbatim>\<open>go/cmd/vtctl/plugin_zktopo.go\<close> registers the Zookeeper-specific commands of vtctl:
  PurgeActions, StaleActions, PruneActionLogs and ListShardActions, and the wildcard
  resolver they share (\<^verbatim>\<open>init\<close> sets \<^verbatim>\<open>resolveWildcards = zkResolveWildcards\<close>).  The
  commands are thin orchestration code over collaborators that live in other packages
  (\<^verbatim>\<open>zktopo\<close>, \<^verbatim>\<open>zk\<close>, \<^verbatim>\<open>tabletmanager\<close>, \<^verbatim>\<open>naming\<close>).  The embedding
  keeps the commands as they are written and takes every collaborator as a field of an
  environment record, so each theorem holds for any implementation of them.
\<close>

subsection \<open>Errors, log entries, results\<close>

text \<open>
  A Go \<^verbatim>\<open>error\<close> is a value.  \<^verbatim>\<open>ZNONODE\<close> is the Zookeeper code that
  \<^verbatim>\<open>zookeeper.IsError(err, zookeeper.ZNONODE)\<close> tests for; \<open>OtherError\<close> stands for
  any other error of a collaborator, with its message; \<^verbatim>\<open>Errorf\<close> is \<^verbatim>\<open>fmt.Errorf\<close>
  with its format string and its arguments kept apart (no formatting is performed).  A
  log entry of \<^verbatim>\<open>relog\<close> is kept the same way, with its level.
\<close>

datatype error =
    ZNONODE
  | OtherError string
  | Errorf string "fmtarg list"
and fmtarg =
    ArgS string
  | ArgE error
  | ArgI int

datatype level = Debug | Warning | Error | Fatal

type_synonym logentry = "level \<times> string \<times> fmtarg list"

text \<open>Every call this file makes on the coordination store, in the order it is made.\<close>

datatype zkcall =
    CallResolveWildcards "string list"
  | CallPurgeActions string
  | CallStaleActions string int
  | CallPruneActionLogs string int
  | CallChildren string
  | CallGet string
  | CallFindAllTabletAliasesInShard string string

text \<open>
  \<^verbatim>\<open>wrangler.TopologyServer()\<close> is an interface value; the commands downcast it with
  \<^verbatim>\<open>.(*zktopo.ZkTopologyServer)\<close>.  Only the outcome of the downcast matters.
\<close>

datatype TopologyServer = ZkTopologyServer | OtherTopologyServer string

datatype TabletAlias = TabletAlias (Cell: string) (Uid: nat)

text \<open>
  A command returns \<^verbatim>\<open>(string, error)\<close>, unless \<^verbatim>\<open>relog.Fatal\<close> ends the process
  first (\<open>Exited\<close>).  \<^verbatim>\<open>relog.Fatal\<close> is the fatal call of the logging package: it
  writes the entry and exits, and the commands rely on that, having no \<^verbatim>\<open>return\<close>
  after it.
\<close>

datatype cmdresult = Exited | Returned string "error option"

subsection \<open>The collaborators and the world\<close>

text \<open>
  \<open>'st\<close> is the state of the coordination store, \<open>'n\<close> the type \<^verbatim>\<open>tm.ActionNode\<close>.
  A Go result \<^verbatim>\<open>(v, err)\<close> whose value is dropped on error is a sum
  (\<open>Inl\<close> the error); \<^verbatim>\<open>zconn.Get\<close> keeps the pair, since \<^verbatim>\<open>getActions\<close> goes on to
  use the data when the error is \<^verbatim>\<open>ZNONODE\<close>.  Operations that delete return the new
  store, also when they fail.  Durations and counts are Go integers that are only passed
  on, hence \<open>int\<close>.

  \<open>sched\<close> is the order in which the goroutines spawned over a list take effect; the
  theorems ask it to be a permutation of its argument.  The goroutines of a loop are run
  one after the other in that order, each as one step: what a worker appends under the
  mutex, adds to the counter or deletes is kept, the interleaving of the steps inside two
  workers is not.
\<close>

record ('st, 'n) env =
  zkts_PurgeActions :: "string \<Rightarrow> 'st \<Rightarrow> error option \<times> 'st"
  zkts_StaleActions :: "string \<Rightarrow> int \<Rightarrow> 'st \<Rightarrow> error + string list"
  zkts_PruneActionLogs :: "string \<Rightarrow> int \<Rightarrow> 'st \<Rightarrow> (error + int) \<times> 'st"
  zkts_ShardActionPath :: "string \<Rightarrow> string \<Rightarrow> string"
  zktopo_TabletActionPathForAlias :: "TabletAlias \<Rightarrow> string"
  naming_FindAllTabletAliasesInShard :: "string \<Rightarrow> string \<Rightarrow> 'st \<Rightarrow> error + TabletAlias list"
  zk_ResolveWildcards :: "string list \<Rightarrow> 'st \<Rightarrow> error + string list"
  zconn_Children :: "string \<Rightarrow> 'st \<Rightarrow> error + string list"
  zconn_Get :: "string \<Rightarrow> 'st \<Rightarrow> string \<times> error option"
  tm_ActionNodeFromJson :: "string \<Rightarrow> string \<Rightarrow> error + 'n"
  node_Path :: "'n \<Rightarrow> string"
  fmtAction :: "'n \<Rightarrow> string"
  path_Join :: "string \<Rightarrow> string \<Rightarrow> string"
  sched :: "string list \<Rightarrow> string list"

record 'st world =
  zk :: 'st
  calls :: "zkcall list"
  relog :: "logentry list"
  stdout :: "string list"

definition called :: "zkcall \<Rightarrow> 'st world \<Rightarrow> 'st world" where
  "called c w = w\<lparr>calls := calls w @ [c]\<rparr>"

definition logged :: "level \<Rightarrow> string \<Rightarrow> fmtarg list \<Rightarrow> 'st world \<Rightarrow> 'st world" where
  "logged l f as w = w\<lparr>relog := relog w @ [(l, f, as)]\<rparr>"

definition printed :: "string list \<Rightarrow> 'st world \<Rightarrow> 'st world" where
  "printed ls w = w\<lparr>stdout := stdout w @ ls\<rparr>"

subsection \<open>zkResolveWildcards\<close>

definition zkResolveWildcards ::
  "('st, 'n) env \<Rightarrow> TopologyServer \<Rightarrow> string list \<Rightarrow> 'st world \<Rightarrow> (error + string list) \<times> 'st world"
where
  "zkResolveWildcards e ts args w =
     (case ts of
        OtherTopologyServer _ \<Rightarrow> (Inr args, w)
      | ZkTopologyServer \<Rightarrow>
          (zk_ResolveWildcards e args (zk w), called (CallResolveWildcards args) w))"

subsection \<open>commandPurgeActions\<close>

text \<open>
  \<open>args\<close> is \<^verbatim>\<open>subFlags.Args()\<close>, the arguments left once the flags are parsed.  The
  loop over the resolved paths is sequential and returns at the first error.
\<close>

fun purgeLoop :: "('st, 'n) env \<Rightarrow> string list \<Rightarrow> 'st world \<Rightarrow> error option \<times> 'st world" where
  "purgeLoop e [] w = (None, w)"
| "purgeLoop e (zkActionPath # rest) w =
     (case zkts_PurgeActions e zkActionPath (zk w) of
        (err, s) \<Rightarrow>
          (let w1 = called (CallPurgeActions zkActionPath) (w\<lparr>zk := s\<rparr>)
           in case err of
                Some er \<Rightarrow> (Some er, w1)
              | None \<Rightarrow> purgeLoop e rest w1))"

definition commandPurgeActions ::
  "('st, 'n) env \<Rightarrow> TopologyServer \<Rightarrow> string list \<Rightarrow> 'st world \<Rightarrow> cmdresult \<times> 'st world"
where
  "commandPurgeActions e ts args w =
     (if args = [] then
        (Exited, logged Fatal ''action PurgeActions requires <zk action path> ...'' [] w)
      else case ts of
        OtherTopologyServer _ \<Rightarrow>
          (Returned [] (Some (Errorf ''PurgeActions requires a ZkTopologyServer'' [])), w)
      | ZkTopologyServer \<Rightarrow>
          (case zkResolveWildcards e ts args w of
             (Inl err, w1) \<Rightarrow> (Returned [] (Some err), w1)
           | (Inr zkActionPaths, w1) \<Rightarrow>
               (case purgeLoop e zkActionPaths w1 of
                  (Some err, w2) \<Rightarrow> (Returned [] (Some err), w2)
                | (None, w2) \<Rightarrow> (Returned [] None, w2))))"

subsection \<open>staleActions and commandStaleActions\<close>

text \<open>
  The conversion loop of \<^verbatim>\<open>staleActions\<close>: the first payload that does not decode
  ends the loop with its error, and the nodes decoded so far are dropped.
\<close>

fun decodeStale :: "('st, 'n) env \<Rightarrow> string list \<Rightarrow> error + 'n list" where
  "decodeStale e [] = Inr []"
| "decodeStale e (actionNodeStr # rest) =
     (case tm_ActionNodeFromJson e actionNodeStr [] of
        Inl err \<Rightarrow> Inl err
      | Inr actionNode \<Rightarrow>
          (case decodeStale e rest of
             Inl err \<Rightarrow> Inl err
           | Inr nodes \<Rightarrow> Inr (actionNode # nodes)))"

definition staleActions ::
  "('st, 'n) env \<Rightarrow> string \<Rightarrow> int \<Rightarrow> 'st world \<Rightarrow> (error + 'n list) \<times> 'st world"
where
  "staleActions e zkActionPath maxStaleness w =
     (let w1 = called (CallStaleActions zkActionPath maxStaleness) w
      in case zkts_StaleActions e zkActionPath maxStaleness (zk w) of
           Inl err \<Rightarrow> (Inl err, w1)
         | Inr actionNodes \<Rightarrow> (decodeStale e actionNodes, w1))"

text \<open>
  The body of the goroutine of \<^verbatim>\<open>commandStaleActions\<close>.  \<^verbatim>\<open>errCount\<close> is a
  \<^verbatim>\<open>sync2.AtomicInt32\<close>: a 32-bit counter that wraps, read as a signed number.
\<close>

definition staleWorker ::
  "('st, 'n) env \<Rightarrow> int \<Rightarrow> bool \<Rightarrow> string \<Rightarrow> 'st world \<times> 32 word \<Rightarrow> 'st world \<times> 32 word"
where
  "staleWorker e maxStaleness purge zkActionPath wc =
     (case wc of (w, errCount) \<Rightarrow>
        (case staleActions e zkActionPath maxStaleness w of
           (Inl err, w1) \<Rightarrow>
             (logged Error ''can't check stale actions: %v %v'' [ArgS zkActionPath, ArgE err] w1,
              errCount + 1)
         | (Inr stale, w1) \<Rightarrow>
             (let w2 = printed (map (fmtAction e) stale) w1
              in if purge \<and> length stale > 0 then
                   (case zkts_PurgeActions e zkActionPath (zk w2) of
                      (Some err, s) \<Rightarrow>
                        (logged Error ''can't purge stale actions: %v %v''
                           [ArgS zkActionPath, ArgE err]
                           (called (CallPurgeActions zkActionPath) (w2\<lparr>zk := s\<rparr>)),
                         errCount + 1)
                    | (None, s) \<Rightarrow>
                        (called (CallPurgeActions zkActionPath) (w2\<lparr>zk := s\<rparr>), errCount))
                 else (w2, errCount))))"

definition someErrors :: error where
  "someErrors = Errorf ''some errors occurred, check the log'' []"

definition commandStaleActions ::
  "('st, 'n) env \<Rightarrow> TopologyServer \<Rightarrow> int \<Rightarrow> bool \<Rightarrow> string list \<Rightarrow> 'st world
     \<Rightarrow> cmdresult \<times> 'st world"
where
  "commandStaleActions e ts maxStaleness purge args w =
     (if args = [] then
        (Exited, logged Fatal ''action StaleActions requires <zk action path>'' [] w)
      else case ts of
        OtherTopologyServer _ \<Rightarrow>
          (Returned [] (Some (Errorf ''StaleActions requires a ZkTopologyServer'' [])), w)
      | ZkTopologyServer \<Rightarrow>
          (case zkResolveWildcards e ts args w of
             (Inl err, w1) \<Rightarrow> (Returned [] (Some err), w1)
           | (Inr zkPaths, w1) \<Rightarrow>
               (case fold (staleWorker e maxStaleness purge) (sched e zkPaths) (w1, 0) of
                  (w2, errCount) \<Rightarrow>
                    (if 0 < sint errCount then (Returned [] (Some someErrors), w2)
                     else (Returned [] None, w2)))))"

subsection \<open>commandPruneActionLogs\<close>

definition pruneWorker ::
  "('st, 'n) env \<Rightarrow> int \<Rightarrow> string \<Rightarrow> 'st world \<times> 32 word \<Rightarrow> 'st world \<times> 32 word"
where
  "pruneWorker e keepCount zkActionLogPath wc =
     (case wc of (w, errCount) \<Rightarrow>
        (case zkts_PruneActionLogs e zkActionLogPath keepCount (zk w) of
           (r, s) \<Rightarrow>
             (let w1 = called (CallPruneActionLogs zkActionLogPath keepCount) (w\<lparr>zk := s\<rparr>)
              in case r of
                   Inr purgedCount \<Rightarrow>
                     (logged Debug ''%v pruned %v'' [ArgS zkActionLogPath, ArgI purgedCount] w1,
                      errCount)
                 | Inl err \<Rightarrow>
                     (logged Error ''%v pruning failed: %v'' [ArgS zkActionLogPath, ArgE err] w1,
                      errCount + 1))))"

text \<open>Here the wildcards are resolved before the downcast is checked.\<close>

definition commandPruneActionLogs ::
  "('st, 'n) env \<Rightarrow> TopologyServer \<Rightarrow> int \<Rightarrow> string list \<Rightarrow> 'st world \<Rightarrow> cmdresult \<times> 'st world"
where
  "commandPruneActionLogs e ts keepCount args w =
     (if args = [] then
        (Exited, logged Fatal ''action PruneActionLogs requires <zk action log path> ...'' [] w)
      else case zkResolveWildcards e ts args w of
        (Inl err, w1) \<Rightarrow> (Returned [] (Some err), w1)
      | (Inr paths, w1) \<Rightarrow>
          (case ts of
             OtherTopologyServer _ \<Rightarrow>
               (Returned [] (Some (Errorf ''PruneActionLogs requires a ZkTopologyServer'' [])), w1)
           | ZkTopologyServer \<Rightarrow>
               (case fold (pruneWorker e keepCount) (sched e paths) (w1, 0) of
                  (w2, errCount) \<Rightarrow>
                    (if 0 < sint errCount then (Returned [] (Some someErrors), w2)
                     else (Returned [] None, w2)))))"

subsection \<open>getActions\<close>

text \<open>
  The goroutine of \<^verbatim>\<open>getActions\<close>.  A \<^verbatim>\<open>Get\<close> error other than \<^verbatim>\<open>ZNONODE\<close> is
  logged and ends the worker; with \<^verbatim>\<open>ZNONODE\<close> the worker goes on and decodes the data
  that \<^verbatim>\<open>Get\<close> returned with the error.  The nodes are appended under the mutex, in the
  order the workers get there.
\<close>

definition getWorker ::
  "('st, 'n) env \<Rightarrow> string \<Rightarrow> string \<Rightarrow> 'n list \<times> 'st world \<Rightarrow> 'n list \<times> 'st world"
where
  "getWorker e actionPath action nw =
     (case nw of (nodes, w) \<Rightarrow>
        (let actionNodePath = path_Join e actionPath action;
             w1 = called (CallGet actionNodePath) w
         in case zconn_Get e actionNodePath (zk w) of
              (data, err) \<Rightarrow>
                (if err \<noteq> None \<and> err \<noteq> Some ZNONODE then
                   (nodes, logged Warning ''getActions: %v %v''
                             [ArgS actionNodePath, ArgE (the err)] w1)
                 else case tm_ActionNodeFromJson e data actionNodePath of
                        Inl derr \<Rightarrow>
                          (nodes, logged Warning ''getActions: %v %v''
                                    [ArgS actionNodePath, ArgE derr] w1)
                      | Inr actionNode \<Rightarrow> (nodes @ [actionNode], w1))))"

definition getActions ::
  "('st, 'n) env \<Rightarrow> string \<Rightarrow> 'st world \<Rightarrow> (error + 'n list) \<times> 'st world"
where
  "getActions e actionPath w =
     (let w1 = called (CallChildren actionPath) w
      in case zconn_Children e actionPath (zk w) of
           Inl err \<Rightarrow> (Inl (Errorf ''getActions failed: %v %v'' [ArgS actionPath, ArgE err]), w1)
         | Inr actions \<Rightarrow>
             (case fold (getWorker e actionPath) (sched e (sort actions)) ([], w1) of
                (nodes, w2) \<Rightarrow> (Inr nodes, w2)))"

subsection \<open>listActionsByShard\<close>

text \<open>
  \<^verbatim>\<open>actionMap\<close> is a Go map from path to node: an association list with distinct keys,
  updated in place.  \<open>mergeWorker\<close> is the closure \<^verbatim>\<open>f\<close>.
\<close>

definition mergeWorker ::
  "('st, 'n) env \<Rightarrow> string \<Rightarrow> (string \<times> 'n) list \<times> 'st world \<Rightarrow> (string \<times> 'n) list \<times> 'st world"
where
  "mergeWorker e actionPath mw =
     (case mw of (actionMap, w) \<Rightarrow>
        (case getActions e actionPath w of
           (Inl err, w1) \<Rightarrow> (actionMap, logged Warning ''listActionsByShard %v'' [ArgE err] w1)
         | (Inr actionNodes, w1) \<Rightarrow>
             (fold (\<lambda>node m. AList.update (node_Path e node) node m) actionNodes actionMap, w1)))"

text \<open>The final loop over the sorted keys of the map.\<close>

fun printSorted ::
  "('st, 'n) env \<Rightarrow> (string \<times> 'n) list \<Rightarrow> string list \<Rightarrow> 'st world \<Rightarrow> 'st world"
where
  "printSorted e actionMap [] w = w"
| "printSorted e actionMap (key # keys) w =
     printSorted e actionMap keys
       (case map_of actionMap key of
          None \<Rightarrow> logged Warning ''nil action: %v'' [ArgS key] w
        | Some action \<Rightarrow> printed [fmtAction e action] w)"

definition listActionsByShard ::
  "('st, 'n) env \<Rightarrow> TopologyServer \<Rightarrow> string \<Rightarrow> string \<Rightarrow> 'st world \<Rightarrow> error option \<times> 'st world"
where
  "listActionsByShard e ts keyspace shard w =
     (case ts of
        OtherTopologyServer _ \<Rightarrow>
          (Some (Errorf ''listActionsByShard only works with ZkTopologyServer'' []), w)
      | ZkTopologyServer \<Rightarrow>
          (let shardActionPath = zkts_ShardActionPath e keyspace shard
           in case getActions e shardActionPath w of
                (Inl err, w1) \<Rightarrow> (Some err, w1)
              | (Inr shardActionNodes, w1) \<Rightarrow>
                  (let w2 = printed (map (fmtAction e) shardActionNodes) w1;
                       w3 = called (CallFindAllTabletAliasesInShard keyspace shard) w2
                   in case naming_FindAllTabletAliasesInShard e keyspace shard (zk w2) of
                        Inl err \<Rightarrow> (Some err, w3)
                      | Inr tabletAliases \<Rightarrow>
                          (case fold (mergeWorker e)
                                  (sched e (map (zktopo_TabletActionPathForAlias e) tabletAliases))
                                  ([], w3) of
                             (actionMap, w4) \<Rightarrow>
                               (None, printSorted e actionMap (sort (map fst actionMap)) w4)))))"

subsection \<open>Derived notions\<close>





text \<open>The paths scanned for stale actions, and the paths purged, in a trace of calls.\<close>

fun scanned :: "zkcall list \<Rightarrow> string list" where
  "scanned [] = []"
| "scanned (CallStaleActions p m # cs) = p # scanned cs"
| "scanned (c # cs) = scanned cs"

fun purged :: "zkcall list \<Rightarrow> string list" where
  "purged [] = []"
| "purged (CallPurgeActions p # cs) = p # purged cs"
| "purged (c # cs) = purged cs"


text \<open>
  What one worker of \<^verbatim>\<open>getActions\<close> contributes, as a function of the store: the
  decoded node, or the warning it logs.
\<close>

definition fetchNode :: "('st, 'n) env \<Rightarrow> string \<Rightarrow> 'st \<Rightarrow> string \<Rightarrow> logentry + 'n" where
  "fetchNode e actionPath s action =
     (let actionNodePath = path_Join e actionPath action
      in case zconn_Get e actionNodePath s of
           (data, err) \<Rightarrow>
             (if err \<noteq> None \<and> err \<noteq> Some ZNONODE then
                Inl (Warning, ''getActions: %v %v'', [ArgS actionNodePath, ArgE (the err)])
              else case tm_ActionNodeFromJson e data actionNodePath of
                     Inl derr \<Rightarrow>
                       Inl (Warning, ''getActions: %v %v'', [ArgS actionNodePath, ArgE derr])
                   | Inr actionNode \<Rightarrow> Inr actionNode))"

fun nodesOf :: "(logentry + 'n) list \<Rightarrow> 'n list" where
  "nodesOf [] = []"
| "nodesOf (Inr n # rs) = n # nodesOf rs"
| "nodesOf (Inl l # rs) = nodesOf rs"

fun warningsOf :: "(logentry + 'n) list \<Rightarrow> logentry list" where
  "warningsOf [] = []"
| "warningsOf (Inl l # rs) = l # warningsOf rs"
| "warningsOf (Inr n # rs) = warningsOf rs"

text \<open>
  The action nodes of the replicas, listed without any scheduling: tablet action path by
  tablet action path in the order given, children in sorted order.  A path whose children
  cannot be listed contributes nothing.
\<close>

definition replicaNodes :: "('st, 'n) env \<Rightarrow> 'st \<Rightarrow> string list \<Rightarrow> 'n list" where
  "replicaNodes e s actionPaths =
     concat (map (\<lambda>actionPath.
        case zconn_Children e actionPath s of
          Inl _ \<Rightarrow> []
        | Inr actions \<Rightarrow> nodesOf (map (fetchNode e actionPath s) (sort actions))) actionPaths)"

subsection \<open>The store-level pruning\<close>

text \<open>
  Modelled from the spec: the coordination store, reduced to what pruning needs, the names
  of the children of each path (\<^verbatim>\<open>getChildren(path) -> list of names\<close>); a path the
  store does not know has no children.
\<close>

type_synonym zkstore = "(string \<times> string list) list"

definition getChildren :: "zkstore \<Rightarrow> string \<Rightarrow> string list" where
  "getChildren s p = (case map_of s p of None \<Rightarrow> [] | Some names \<Rightarrow> names)"

text \<open>
  Modelled from the spec: the children that pruning deletes.  The names of the children
  sort lexically in the order of their creation, so all but the last \<^verbatim>\<open>keepCount\<close> of
  the sorted names go.
\<close>

definition doomed :: "int \<Rightarrow> string list \<Rightarrow> string list" where
  "doomed keepCount names = take (length names - nat keepCount) (sort names)"

text \<open>
  Modelled from the spec: \<^verbatim>\<open>zkts.PruneActionLogs\<close> (package \<^verbatim>\<open>zktopo\<close>) is not among
  the sources.  The spec has it, per path, list the children, order them, delete all but
  the most recent \<^verbatim>\<open>keepCount\<close> and return the count of deleted entries; a backend
  failure is an error of the path, and a path with no children has nothing to delete.
  \<open>down\<close> lists the paths on which the backend fails.
\<close>

definition spec_PruneActionLogs ::
  "string list \<Rightarrow> string \<Rightarrow> int \<Rightarrow> zkstore \<Rightarrow> (error + int) \<times> zkstore"
where
  "spec_PruneActionLogs down p keepCount s =
     (if p \<in> set down then (Inl (OtherError ''store unavailable''), s)
      else
        (let names = getChildren s p
         in (Inr (int (length (doomed keepCount names))),
             AList.update p (filter (\<lambda>c. c \<notin> set (doomed keepCount names)) names) s)))"


subsection \<open>A small instance\<close>

text \<open>
  An environment to run the commands on.  The backend fails on \<^verbatim>\<open>/down\<close>.  Purging a
  path deletes all its children.  \<^verbatim>\<open>/idle\<close> has no stale action and \<^verbatim>\<open>/bad\<close> a
  stale action whose payload does not decode; under \<^verbatim>\<open>/act\<close> one child has vanished
  and one holds a malformed payload.  A node is the pair of its path and its payload, and
  is printed as the two.
\<close>

definition demo :: "(zkstore, string \<times> string) env" where
  "demo = \<lparr>
     zkts_PurgeActions = (\<lambda>p s.
        if p = ''/down'' then (Some (OtherError ''store unavailable''), s)
        else (None, AList.update p [] s)),
     zkts_StaleActions = (\<lambda>p m s.
        if p = ''/down'' then Inl (OtherError ''store unavailable'')
        else if p = ''/idle'' then Inr []
        else if p = ''/bad'' then Inr [''{}'', ''garbage'']
        else Inr [''{}'']),
     zkts_PruneActionLogs = spec_PruneActionLogs [''/down''],
     zkts_ShardActionPath = (\<lambda>keyspace shard.
        ''/zk/global/vt/keyspaces/'' @ keyspace @ ''/shards/'' @ shard @ ''/action''),
     zktopo_TabletActionPathForAlias = (\<lambda>a.
        ''/zk/'' @ Cell a @ ''/vt/tablets/''
          @ (if Uid a = 1 then ''0000000001'' else if Uid a = 2 then ''0000000002''
             else ''0000000003'')
          @ ''/action''),
     naming_FindAllTabletAliasesInShard = (\<lambda>keyspace shard s.
        Inr [TabletAlias ''ca'' 2, TabletAlias ''ca'' 1, TabletAlias ''ca'' 3]),
     zk_ResolveWildcards = (\<lambda>args s. if args = [''/none/*''] then Inr [] else Inr args),
     zconn_Children = (\<lambda>p s.
        if p = ''/down'' then Inl (OtherError ''store unavailable'')
        else if p = ''/act'' then Inr [''3-good'', ''1-gone'', ''2-bad'']
        else Inr [''0000000002'', ''0000000001'']),
     zconn_Get = (\<lambda>p s.
        if p = ''/act/1-gone'' then ([], Some ZNONODE)
        else if p = ''/act/2-bad'' then (''garbage'', None)
        else (''{}'', None)),
     tm_ActionNodeFromJson = (\<lambda>data p.
        if data = ''{}'' then Inr (p, data) else Inl (OtherError ''invalid json'')),
     node_Path = fst,
     fmtAction = (\<lambda>n. fst n @ '' '' @ snd n),
     path_Join = (\<lambda>a b. a @ ''/'' @ b),
     sched = (\<lambda>xs. xs) \<rparr>"

definition demoStore :: zkstore where
  "demoStore = [(''/a'', [''0000000001'']),
                (''/b'', [''0000000002'', ''0000000001'']),
                (''/log'', [''0000000003'', ''0000000001'', ''0000000002''])]"

definition demoWorld :: "zkstore world" where
  "demoWorld = \<lparr> zk = demoStore, calls = [], relog = [], stdout = [] \<rparr>"

section \<open>Properties\<close>

subsection \<open>Bookkeeping\<close>

lemma world_simps [simp]:
  "zk (called c w) = zk w" "relog (called c w) = relog w" "stdout (called c w) = stdout w"
  "calls (called c w) = calls w @ [c]"
  "zk (logged l f as w) = zk w" "calls (logged l f as w) = calls w"
  "stdout (logged l f as w) = stdout w" "relog (logged l f as w) = relog w @ [(l, f, as)]"
  "zk (printed ls w) = zk w" "calls (printed ls w) = calls w"
  "relog (printed ls w) = relog w" "stdout (printed ls w) = stdout w @ ls"
  by (simp_all add: called_def logged_def printed_def)

lemma scanned_append [simp]: "scanned (cs @ ds) = scanned cs @ scanned ds"
  by (induction cs rule: scanned.induct) simp_all

lemma purged_append [simp]: "purged (cs @ ds) = purged cs @ purged ds"
  by (induction cs rule: purged.induct) simp_all




subsection \<open>The workers, one path at a time\<close>








subsection \<open>Failure accounting of the batch commands\<close>





subsection \<open>Wildcard resolution and the checks before the workers\<close>

text \<open>
  Claim C9.  When the topology server is not the Zookeeper one, \<^verbatim>\<open>zkResolveWildcards\<close>
  returns its arguments as they are, with no error, and does not touch the world: no
  call is made on the store.
\<close>

theorem zkResolveWildcards_passthrough:
  "zkResolveWildcards e (OtherTopologyServer name) args w = (Inr args, w)"
  by (simp add: zkResolveWildcards_def)

text \<open>
  Claim C10.  With no path argument each of the three batch commands ends the process
  through \<^verbatim>\<open>relog.Fatal\<close>, whatever the topology server is: nothing is returned, and
  the world differs from the initial one by the fatal log entry alone, so no wildcard was
  resolved and no call reached the store.
\<close>

theorem zero_args_fatal:
  "commandPurgeActions e ts [] w =
     (Exited,
      w\<lparr>relog := relog w @ [(Fatal, ''action PurgeActions requires <zk action path> ...'', [])]\<rparr>)
   \<and> commandStaleActions e ts maxStaleness purge [] w =
     (Exited,
      w\<lparr>relog := relog w @ [(Fatal, ''action StaleActions requires <zk action path>'', [])]\<rparr>)
   \<and> commandPruneActionLogs e ts keepCount [] w =
     (Exited,
      w\<lparr>relog := relog w
               @ [(Fatal, ''action PruneActionLogs requires <zk action log path> ...'', [])]\<rparr>)"
  by (simp add: commandPurgeActions_def commandStaleActions_def commandPruneActionLogs_def
        logged_def)

text \<open>
  Claim C8.  Invoked with at least one path while the topology server is not the
  Zookeeper one, each of the three batch commands returns its own
  \<^verbatim>\<open>requires a ZkTopologyServer\<close> error and leaves the world as it was: no worker was
  started and no call reached the store.  (PruneActionLogs resolves the wildcards before
  the check, but that resolution is the pass-through of claim C9.  With no path at all the
  commands end as in claim C10.)
\<close>

theorem not_zk_fails_before_workers:
  assumes "args \<noteq> []"
  shows "commandPurgeActions e (OtherTopologyServer name) args w =
           (Returned [] (Some (Errorf ''PurgeActions requires a ZkTopologyServer'' [])), w)
       \<and> commandStaleActions e (OtherTopologyServer name) maxStaleness purge args w =
           (Returned [] (Some (Errorf ''StaleActions requires a ZkTopologyServer'' [])), w)
       \<and> commandPruneActionLogs e (OtherTopologyServer name) keepCount args w =
           (Returned [] (Some (Errorf ''PruneActionLogs requires a ZkTopologyServer'' [])), w)"
  using assms
  by (simp add: commandPurgeActions_def commandStaleActions_def commandPruneActionLogs_def
        zkResolveWildcards_def)

theorem not_zk_fails_before_workers_witness:
  "commandPurgeActions demo (OtherTopologyServer ''tee'') [''/a'', ''/b''] demoWorld =
     (Returned [] (Some (Errorf ''PurgeActions requires a ZkTopologyServer'' [])), demoWorld)
   \<and> commandStaleActions demo (OtherTopologyServer ''tee'') 300 True [''/a'', ''/b''] demoWorld =
     (Returned [] (Some (Errorf ''StaleActions requires a ZkTopologyServer'' [])), demoWorld)
   \<and> commandPruneActionLogs demo (OtherTopologyServer ''tee'') 10 [''/a'', ''/b''] demoWorld =
     (Returned [] (Some (Errorf ''PruneActionLogs requires a ZkTopologyServer'' [])), demoWorld)"
proof -
  have a: "[''/a'', ''/b''] \<noteq> ([] :: string list)" by simp
  show ?thesis by (rule not_zk_fails_before_workers[OF a])
qed



subsection \<open>getActions as a function of the store\<close>

text \<open>
  \<^verbatim>\<open>getActions\<close> only reads: the list it returns holds, for each listed child in the
  order the workers take effect, the node \<open>fetchNode\<close> yields, and the log gains the
  warnings of the children that yield none.
\<close>

lemma nodesOf_append [simp]: "nodesOf (rs @ qs) = nodesOf rs @ nodesOf qs"
  by (induction rs rule: nodesOf.induct) simp_all

lemma warningsOf_append [simp]: "warningsOf (rs @ qs) = warningsOf rs @ warningsOf qs"
  by (induction rs rule: warningsOf.induct) simp_all

lemma getWorker_eq:
  "getWorker e ap a (nodes, w) =
     (nodes @ nodesOf [fetchNode e ap (zk w) a],
      w\<lparr>calls := calls w @ [CallGet (path_Join e ap a)],
        relog := relog w @ warningsOf [fetchNode e ap (zk w) a]\<rparr>)"
  by (simp add: getWorker_def fetchNode_def Let_def called_def logged_def
           split: prod.splits sum.splits)

lemma fold_getWorker:
  "fold (getWorker e ap) as (nodes, w) =
     (nodes @ nodesOf (map (fetchNode e ap (zk w)) as),
      w\<lparr>calls := calls w @ map (\<lambda>a. CallGet (path_Join e ap a)) as,
        relog := relog w @ warningsOf (map (fetchNode e ap (zk w)) as)\<rparr>)"
proof (induction as arbitrary: nodes w)
  case Nil
  show ?case by simp
next
  case (Cons a as)
  show ?case
    by (cases "fetchNode e ap (zk w) a") (simp_all add: getWorker_eq Cons.IH)
qed

lemma getActions_eq:
  "getActions e ap w =
     (case zconn_Children e ap (zk w) of
        Inl err \<Rightarrow>
          (Inl (Errorf ''getActions failed: %v %v'' [ArgS ap, ArgE err]),
           w\<lparr>calls := calls w @ [CallChildren ap]\<rparr>)
      | Inr actions \<Rightarrow>
          (Inr (nodesOf (map (fetchNode e ap (zk w)) (sched e (sort actions)))),
           w\<lparr>calls := calls w @ CallChildren ap
                          # map (\<lambda>a. CallGet (path_Join e ap a)) (sched e (sort actions)),
             relog := relog w
                        @ warningsOf (map (fetchNode e ap (zk w)) (sched e (sort actions)))\<rparr>))"
  by (simp add: getActions_def Let_def fold_getWorker called_def split: sum.splits)

lemma getActions_reads_only:
  "zk (snd (getActions e ap w)) = zk w" "stdout (snd (getActions e ap w)) = stdout w"
  by (simp_all add: getActions_eq split: sum.splits)






subsection \<open>The purge that follows a stale scan\<close>






subsection \<open>Payloads that do not decode\<close>






subsection \<open>Pruning the action logs\<close>














subsection \<open>The listing of the actions of a shard\<close>

lemma set_nodesOf_map: "set (nodesOf (map f xs)) = {n. \<exists>x\<in>set xs. f x = Inr n}"
proof (induction xs)
  case Nil
  show ?case by simp
next
  case (Cons x xs)
  then show ?case by (cases "f x") auto
qed

lemma printed_printed: "printed ys (printed xs w) = printed (xs @ ys) w"
  by (simp add: printed_def)

lemma printSorted_eq:
  assumes "\<forall>key\<in>set keys. map_of actionMap key \<noteq> None"
  shows "printSorted e actionMap keys w =
           printed (map (\<lambda>key. fmtAction e (the (map_of actionMap key))) keys) w"
  using assms
proof (induction keys arbitrary: w)
  case Nil
  show ?case by (simp add: printed_def)
next
  case (Cons key keys)
  from Cons.prems obtain action where a: "map_of actionMap key = Some action" by auto
  from Cons.prems have "\<forall>key\<in>set keys. map_of actionMap key \<noteq> None" by simp
  from Cons.IH[OF this] a show ?case by (simp add: printed_printed)
qed

text \<open>Writing a list of nodes into the map, each under its path.\<close>

lemma set_update_subset: "set (AList.update k v al) \<subseteq> insert (k, v) (set al)"
  by (induction al) auto

lemma merge_nodes:
  assumes "distinct (map fst am)" and "\<forall>(k, n)\<in>set am. node_Path e n = k"
  shows "distinct (map fst (fold (\<lambda>node m. AList.update (node_Path e node) node m) nodes am))
       \<and> (\<forall>(k, n)\<in>set (fold (\<lambda>node m. AList.update (node_Path e node) node m) nodes am).
             node_Path e n = k)
       \<and> fst ` set (fold (\<lambda>node m. AList.update (node_Path e node) node m) nodes am)
           = fst ` set am \<union> node_Path e ` set nodes
       \<and> snd ` set (fold (\<lambda>node m. AList.update (node_Path e node) node m) nodes am)
           \<subseteq> snd ` set am \<union> set nodes"
  using assms
proof (induction nodes arbitrary: am)
  case Nil
  then show ?case by simp
next
  case (Cons n nodes)
  let ?am = "AList.update (node_Path e n) n am"
  from Cons.prems(1) have d: "distinct (map fst ?am)" by (rule distinct_update)
  from Cons.prems(2) set_update_subset[of "node_Path e n" n am]
  have k: "\<forall>(k, n)\<in>set ?am. node_Path e n = k" by auto
  have keys: "fst ` set ?am = insert (node_Path e n) (fst ` set am)"
    by (simp add: dom_update)
  from set_update_subset[of "node_Path e n" n am]
  have vals: "snd ` set ?am \<subseteq> insert n (snd ` set am)" by auto
  let ?r = "fold (\<lambda>node m. AList.update (node_Path e node) node m) nodes ?am"
  from Cons.IH[OF d k]
  have i1: "distinct (map fst ?r)"
    and i2: "\<forall>(k, n)\<in>set ?r. node_Path e n = k"
    and i3: "fst ` set ?r = fst ` set ?am \<union> node_Path e ` set nodes"
    and i4: "snd ` set ?r \<subseteq> snd ` set ?am \<union> set nodes"
    by simp_all
  from i3 keys have j3: "fst ` set ?r = fst ` set am \<union> node_Path e ` set (n # nodes)"
    by simp
  from i4 vals have j4: "snd ` set ?r \<subseteq> snd ` set am \<union> set (n # nodes)"
    by (simp only: set_simps) blast
  from i1 i2 j3 j4 show ?case by (simp only: fold_simps) 
qed

text \<open>The nodes one merge worker writes: those of its path, in the order of its workers.\<close>

lemma mergeWorker_eq:
  "mergeWorker e ap (am, w) =
     (case zconn_Children e ap (zk w) of
        Inl err \<Rightarrow> (am, logged Warning ''listActionsByShard %v''
                          [ArgE (Errorf ''getActions failed: %v %v'' [ArgS ap, ArgE err])]
                          (snd (getActions e ap w)))
      | Inr actions \<Rightarrow>
          (fold (\<lambda>node m. AList.update (node_Path e node) node m)
             (nodesOf (map (fetchNode e ap (zk w)) (sched e (sort actions)))) am,
           snd (getActions e ap w)))"
  by (simp add: mergeWorker_def getActions_eq split: sum.splits)

lemma subset_chain: "A \<subseteq> B \<union> R \<Longrightarrow> B \<subseteq> C \<union> H \<Longrightarrow> A \<subseteq> C \<union> (H \<union> R)"
  by blast

lemma fold_mergeWorker:
  assumes perm: "\<forall>xs. mset (sched e xs) = mset xs"
    and "distinct (map fst am)" and "\<forall>(k, n)\<in>set am. node_Path e n = k"
    and "fold (mergeWorker e) aps (am, w) = (am', w')"
  shows "zk w' = zk w \<and> stdout w' = stdout w
       \<and> distinct (map fst am') \<and> (\<forall>(k, n)\<in>set am'. node_Path e n = k)
       \<and> fst ` set am' = fst ` set am \<union> node_Path e ` set (replicaNodes e (zk w) aps)
       \<and> snd ` set am' \<subseteq> snd ` set am \<union> set (replicaNodes e (zk w) aps)"
  using assms(2-)
proof (induction aps arbitrary: am w)
  case Nil
  then show ?case by (simp add: replicaNodes_def)
next
  case (Cons ap aps)
  obtain am1 w1 where step: "mergeWorker e ap (am, w) = (am1, w1)"
    by (cases "mergeWorker e ap (am, w)")
  from Cons.prems(3) step have rest: "fold (mergeWorker e) aps (am1, w1) = (am', w')" by simp
  let ?here = "replicaNodes e (zk w) [ap]"
  have reads: "zk w1 = zk w" "stdout w1 = stdout w"
    using step by (auto simp: mergeWorker_eq getActions_reads_only split: sum.splits)
  have one: "distinct (map fst am1) \<and> (\<forall>(k, n)\<in>set am1. node_Path e n = k)
       \<and> fst ` set am1 = fst ` set am \<union> node_Path e ` set ?here
       \<and> snd ` set am1 \<subseteq> snd ` set am \<union> set ?here"
  proof (cases "zconn_Children e ap (zk w)")
    case (Inl err)
    with step Cons.prems(1,2) show ?thesis
      by (simp add: mergeWorker_eq replicaNodes_def)
  next
    case (Inr actions)
    let ?ns = "nodesOf (map (fetchNode e ap (zk w)) (sched e (sort actions)))"
    from perm have "mset (sched e (sort actions)) = mset (sort actions)" ..
    then have "set (sched e (sort actions)) = set (sort actions)"
      by (rule mset_eq_setD)
    then have same: "set ?ns = set ?here"
      using Inr by (simp add: replicaNodes_def set_nodesOf_map)
    from step Inr
    have am1: "am1 = fold (\<lambda>node m. AList.update (node_Path e node) node m) ?ns am"
      by (simp add: mergeWorker_eq)
    from merge_nodes[OF Cons.prems(1,2), of ?ns] same show ?thesis
      unfolding am1 by simp
  qed
  then have d1: "distinct (map fst am1)" and k1: "\<forall>(k, n)\<in>set am1. node_Path e n = k"
    and f1: "fst ` set am1 = fst ` set am \<union> node_Path e ` set ?here"
    and s1: "snd ` set am1 \<subseteq> snd ` set am \<union> set ?here"
    by simp_all
  from Cons.IH[OF d1 k1 rest] reads
  have r1: "zk w' = zk w" "stdout w' = stdout w" "distinct (map fst am')"
    "\<forall>(k, n)\<in>set am'. node_Path e n = k"
    and f2: "fst ` set am' = fst ` set am1 \<union> node_Path e ` set (replicaNodes e (zk w) aps)"
    and s2: "snd ` set am' \<subseteq> snd ` set am1 \<union> set (replicaNodes e (zk w) aps)"
    by simp_all
  have both: "set (replicaNodes e (zk w) (ap # aps))
                 = set ?here \<union> set (replicaNodes e (zk w) aps)"
    by (simp add: replicaNodes_def)
  have f: "fst ` set am' = fst ` set am
             \<union> node_Path e ` set (replicaNodes e (zk w) (ap # aps))"
    unfolding both f2 f1 by (simp only: image_Un Un_assoc)
  have s: "snd ` set am' \<subseteq> snd ` set am
             \<union> set (replicaNodes e (zk w) (ap # aps))"
    unfolding both by (rule subset_chain[OF s2 s1])
  from r1 f s show ?case by (simp only: simp_thms)
qed

lemma set_replicaNodes_cong:
  assumes "set aps = set bps"
  shows "set (replicaNodes e s aps) = set (replicaNodes e s bps)"
  using assms by (simp add: replicaNodes_def)

text \<open>A list sorted strictly by an injective key is determined by its elements.\<close>

lemma sorted_by_key_unique:
  fixes f :: "'a \<Rightarrow> 'k::linorder"
  assumes srt: "sorted_wrt (<) (map f T)" and same: "set T = set X" and inj: "inj_on f (set X)"
  shows "T = sort_key f (remdups X)"
proof -
  let ?R = "sort_key f (remdups X)"
  have setR: "set ?R = set X" by simp
  have "distinct ?R" by simp
  with inj setR have "distinct (map f ?R)" by (simp add: distinct_map)
  moreover have "sorted (map f ?R)" by (rule sorted_sort_key)
  ultimately have srtR: "sorted_wrt (<) (map f ?R)" by (simp add: strict_sorted_iff)
  have "set (map f T) = set (map f ?R)" using same setR by simp
  with srt srtR have "map f T = map f ?R" by (intro strict_sorted_equal) simp_all
  moreover have "inj_on f (set T \<union> set ?R)" using inj same setR by simp
  ultimately show ?thesis by (simp add: inj_on_map_eq_map)
qed

lemma listed_values:
  assumes d: "distinct (map fst am)"
    and k: "\<forall>(k, n)\<in>set am. node_Path e n = k"
  shows "map (node_Path e) (map (\<lambda>key. the (map_of am key)) (sort (map fst am)))
           = sort (map fst am)"
    and "set (map (\<lambda>key. the (map_of am key)) (sort (map fst am))) = snd ` set am"
    and "\<forall>key\<in>set (sort (map fst am)). map_of am key \<noteq> None"
proof -
  have val: "\<And>key n. (key, n) \<in> set am \<Longrightarrow> the (map_of am key) = n"
    using d by simp
  have "\<And>key. key \<in> set (sort (map fst am)) \<Longrightarrow> node_Path e (the (map_of am key)) = key"
  proof -
    fix key assume "key \<in> set (sort (map fst am))"
    then obtain n where m: "(key, n) \<in> set am" by auto
    with k val[OF m] show "node_Path e (the (map_of am key)) = key" by auto
  qed
  then have "map (\<lambda>key. node_Path e (the (map_of am key))) (sort (map fst am))
           = sort (map fst am)"
    by (intro map_idI)
  then show "map (node_Path e) (map (\<lambda>key. the (map_of am key)) (sort (map fst am)))
           = sort (map fst am)"
    by (simp only: map_map o_def)
  show "set (map (\<lambda>key. the (map_of am key)) (sort (map fst am))) = snd ` set am"
  proof
    show "set (map (\<lambda>key. the (map_of am key)) (sort (map fst am))) \<subseteq> snd ` set am"
    proof
      fix n assume "n \<in> set (map (\<lambda>key. the (map_of am key)) (sort (map fst am)))"
      then obtain key n' where "(key, n') \<in> set am" "n = the (map_of am key)" by auto
      with val[of key n'] show "n \<in> snd ` set am" by force
    qed
    show "snd ` set am \<subseteq> set (map (\<lambda>key. the (map_of am key)) (sort (map fst am)))"
    proof
      fix n assume "n \<in> snd ` set am"
      then obtain key where m: "(key, n) \<in> set am" by auto
      then have "key \<in> set (sort (map fst am))" by force
      with val[OF m] show "n \<in> set (map (\<lambda>key. the (map_of am key)) (sort (map fst am)))"
        by force
    qed
  qed
  show "\<forall>key\<in>set (sort (map fst am)). map_of am key \<noteq> None"
    by (auto simp: map_of_eq_None_iff)
qed

text \<open>
  Claim C2 has the shard-level nodes and the nodes of the replicas merged into one
  collection and the whole listing sorted by path.  The shard-level nodes are printed
  first, as \<^verbatim>\<open>getActions\<close> returned them, and never enter the map; only the nodes of
  the replicas are merged and sorted.  Here the paths of the tablets sort before the path
  of the shard, and the listing starts with the shard all the same.  And with the workers
  of \<^verbatim>\<open>getActions\<close> taking effect in the reverse order, on the same store, the two
  shard-level lines come out in the other order: \<^verbatim>\<open>getActions\<close> appends each node when
  its fetch is done.
\<close>

theorem listing_is_not_one_sorted_merge_counterexample:
  "stdout (snd (listActionsByShard demo ZkTopologyServer ''ks'' ''0'' demoWorld)) =
     [''/zk/global/vt/keyspaces/ks/shards/0/action/0000000001 {}'',
      ''/zk/global/vt/keyspaces/ks/shards/0/action/0000000002 {}'',
      ''/zk/ca/vt/tablets/0000000001/action/0000000001 {}'',
      ''/zk/ca/vt/tablets/0000000001/action/0000000002 {}'',
      ''/zk/ca/vt/tablets/0000000002/action/0000000001 {}'',
      ''/zk/ca/vt/tablets/0000000002/action/0000000002 {}'',
      ''/zk/ca/vt/tablets/0000000003/action/0000000001 {}'',
      ''/zk/ca/vt/tablets/0000000003/action/0000000002 {}'']
   \<and> ''/zk/ca/vt/tablets/0000000001/action/0000000001''
       < ''/zk/global/vt/keyspaces/ks/shards/0/action/0000000002''
   \<and> stdout (snd (listActionsByShard (demo\<lparr>sched := rev\<rparr>) ZkTopologyServer ''ks'' ''0''
                     demoWorld)) =
     [''/zk/global/vt/keyspaces/ks/shards/0/action/0000000002 {}'',
      ''/zk/global/vt/keyspaces/ks/shards/0/action/0000000001 {}'',
      ''/zk/ca/vt/tablets/0000000001/action/0000000001 {}'',
      ''/zk/ca/vt/tablets/0000000001/action/0000000002 {}'',
      ''/zk/ca/vt/tablets/0000000002/action/0000000001 {}'',
      ''/zk/ca/vt/tablets/0000000002/action/0000000002 {}'',
      ''/zk/ca/vt/tablets/0000000003/action/0000000001 {}'',
      ''/zk/ca/vt/tablets/0000000003/action/0000000002 {}'']"
proof -
  have run: "stdout (snd (listActionsByShard demo ZkTopologyServer ''ks'' ''0'' demoWorld)) =
     [''/zk/global/vt/keyspaces/ks/shards/0/action/0000000001 {}'',
      ''/zk/global/vt/keyspaces/ks/shards/0/action/0000000002 {}'',
      ''/zk/ca/vt/tablets/0000000001/action/0000000001 {}'',
      ''/zk/ca/vt/tablets/0000000001/action/0000000002 {}'',
      ''/zk/ca/vt/tablets/0000000002/action/0000000001 {}'',
      ''/zk/ca/vt/tablets/0000000002/action/0000000002 {}'',
      ''/zk/ca/vt/tablets/0000000003/action/0000000001 {}'',
      ''/zk/ca/vt/tablets/0000000003/action/0000000002 {}'']"
    by (simp add: listActionsByShard_def mergeWorker_def getActions_def getWorker_def
          demo_def demoWorld_def called_def logged_def printed_def Let_def)
  have lt: "''/zk/ca/vt/tablets/0000000001/action/0000000001''
       < ''/zk/global/vt/keyspaces/ks/shards/0/action/0000000002''"
    by simp
  have rrun: "stdout (snd (listActionsByShard (demo\<lparr>sched := rev\<rparr>) ZkTopologyServer ''ks'' ''0''
                     demoWorld)) =
     [''/zk/global/vt/keyspaces/ks/shards/0/action/0000000002 {}'',
      ''/zk/global/vt/keyspaces/ks/shards/0/action/0000000001 {}'',
      ''/zk/ca/vt/tablets/0000000001/action/0000000001 {}'',
      ''/zk/ca/vt/tablets/0000000001/action/0000000002 {}'',
      ''/zk/ca/vt/tablets/0000000002/action/0000000001 {}'',
      ''/zk/ca/vt/tablets/0000000002/action/0000000002 {}'',
      ''/zk/ca/vt/tablets/0000000003/action/0000000001 {}'',
      ''/zk/ca/vt/tablets/0000000003/action/0000000002 {}'']"
    by (simp add: listActionsByShard_def mergeWorker_def getActions_def getWorker_def
          demo_def demoWorld_def called_def logged_def printed_def Let_def)
  from run lt rrun show ?thesis by (simp only: simp_thms)
qed

text \<open>
  Claim C2, as the code has it.  When the shard-level \<^verbatim>\<open>getActions\<close> succeeds with
  \<open>shardNodes\<close> and the replicas of the shard are found, \<^verbatim>\<open>listActionsByShard\<close>
  succeeds and prints the shard-level nodes, in the order \<^verbatim>\<open>getActions\<close> returned them,
  followed by a list \<open>T\<close> of replica nodes that is sorted strictly by path: no path
  occurs twice.  Every path of a replica node that could be fetched is in \<open>T\<close>, under a
  node fetched for that path.  When no two different replica nodes have the same path,
  \<open>T\<close> is the list of all of them sorted by path, whatever the order in which the workers
  took effect.
\<close>

theorem listActionsByShard_output:
  assumes shard: "fst (getActions e (zkts_ShardActionPath e keyspace shard) w) = Inr shardNodes"
    and find: "naming_FindAllTabletAliasesInShard e keyspace shard (zk w) = Inr aliases"
    and perm: "\<forall>xs. mset (sched e xs) = mset xs"
  shows "\<exists>T w'.
           listActionsByShard e ZkTopologyServer keyspace shard w = (None, w')
         \<and> stdout w' = stdout w @ map (fmtAction e) shardNodes @ map (fmtAction e) T
         \<and> sorted_wrt (<) (map (node_Path e) T)
         \<and> set T \<subseteq> set (replicaNodes e (zk w) (map (zktopo_TabletActionPathForAlias e) aliases))
         \<and> node_Path e ` set T =
             node_Path e ` set (replicaNodes e (zk w) (map (zktopo_TabletActionPathForAlias e) aliases))
         \<and> (inj_on (node_Path e)
                (set (replicaNodes e (zk w) (map (zktopo_TabletActionPathForAlias e) aliases)))
              \<longrightarrow> T = sort_key (node_Path e)
                        (remdups (replicaNodes e (zk w)
                                    (map (zktopo_TabletActionPathForAlias e) aliases))))"
proof -
  let ?sp = "zkts_ShardActionPath e keyspace shard"
  let ?aps = "map (zktopo_TabletActionPathForAlias e) aliases"
  let ?R = "replicaNodes e (zk w) ?aps"
  obtain w1 where g: "getActions e ?sp w = (Inr shardNodes, w1)"
    using shard by (cases "getActions e ?sp w") simp
  from getActions_reads_only[of e ?sp w] g
  have w1: "zk w1 = zk w" "stdout w1 = stdout w" by simp_all
  let ?w3 = "called (CallFindAllTabletAliasesInShard keyspace shard)
               (printed (map (fmtAction e) shardNodes) w1)"
  have w3: "zk ?w3 = zk w" "stdout ?w3 = stdout w @ map (fmtAction e) shardNodes"
    using w1 by simp_all
  obtain am w4 where f: "fold (mergeWorker e) (sched e ?aps) ([], ?w3) = (am, w4)"
    by (cases "fold (mergeWorker e) (sched e ?aps) ([], ?w3)")
  from perm have "mset (sched e ?aps) = mset ?aps" ..
  then have "set (sched e ?aps) = set ?aps" by (rule mset_eq_setD)
  then have R: "replicaNodes e (zk ?w3) (sched e ?aps) = replicaNodes e (zk w) (sched e ?aps)"
    and RS: "set (replicaNodes e (zk w) (sched e ?aps)) = set ?R"
    using w3(1) by (simp_all add: set_replicaNodes_cong)
  have d0: "distinct (map fst [])"
    and k0: "\<forall>(k, n)\<in>set []. node_Path e n = k"
    by simp_all
  from fold_mergeWorker[OF perm d0 k0 f]
  have w4: "zk w4 = zk w" "stdout w4 = stdout w @ map (fmtAction e) shardNodes"
    and d: "distinct (map fst am)"
    and k: "\<forall>(k, n)\<in>set am. node_Path e n = k"
    and keys: "fst ` set am = node_Path e ` set ?R"
    and vals: "snd ` set am \<subseteq> set ?R"
    unfolding R RS w3 by simp_all
  define T where "T = map (\<lambda>key. the (map_of am key)) (sort (map fst am))"
  define R where "R = replicaNodes e (zk w) ?aps"
  note lv = listed_values[OF d k, folded T_def]
  have run: "listActionsByShard e ZkTopologyServer keyspace shard w =
               (None, printed (map (fmtAction e) T) w4)"
    using g find w1 f printSorted_eq[OF lv(3), of e w4]
    by (simp add: listActionsByShard_def Let_def o_def T_def)
  have out: "stdout (printed (map (fmtAction e) T) w4)
               = stdout w @ map (fmtAction e) shardNodes @ map (fmtAction e) T"
    using w4 by simp
  have "sorted (sort (map fst am))" by simp
  moreover have "distinct (sort (map fst am))" using d by simp
  ultimately have "sorted_wrt (<) (sort (map fst am))" by (simp add: strict_sorted_iff)
  then have srt: "sorted_wrt (<) (map (node_Path e) T)" by (simp only: lv(1))
  have sub: "set T \<subseteq> set R" using vals by (simp only: lv(2) R_def)
  have "node_Path e ` set T = set (map (node_Path e) T)" by (simp only: set_map)
  also have "\<dots> = set (sort (map fst am))" by (simp only: lv(1))
  also have "\<dots> = fst ` set am" by simp
  finally have img: "node_Path e ` set T = node_Path e ` set R" by (simp only: keys R_def)
  have uniq: "inj_on (node_Path e) (set R) \<longrightarrow> T = sort_key (node_Path e) (remdups R)"
  proof
    assume inj: "inj_on (node_Path e) (set R)"
    have "set R \<subseteq> set T"
    proof
      fix n assume n: "n \<in> set R"
      then have "node_Path e n \<in> node_Path e ` set T" unfolding img by (rule imageI)
      then obtain t where t: "t \<in> set T" "node_Path e n = node_Path e t" by (rule imageE)
      from t(1) sub have tR: "t \<in> set R" by (rule subsetD[rotated])
      from inj t(2) n tR have "n = t" by (rule inj_onD)
      with t(1) show "n \<in> set T" by simp
    qed
    with sub have "set T = set R" by (rule equalityI)
    from sorted_by_key_unique[OF srt this inj]
    show "T = sort_key (node_Path e) (remdups R)" .
  qed
  from run out srt sub img uniq show ?thesis unfolding R_def by blast
qed

theorem listActionsByShard_output_witness:
  "\<exists>w'. listActionsByShard demo ZkTopologyServer ''ks'' ''0'' demoWorld = (None, w')
       \<and> stdout w' =
           [''/zk/global/vt/keyspaces/ks/shards/0/action/0000000001 {}'',
            ''/zk/global/vt/keyspaces/ks/shards/0/action/0000000002 {}'',
            ''/zk/ca/vt/tablets/0000000001/action/0000000001 {}'',
            ''/zk/ca/vt/tablets/0000000001/action/0000000002 {}'',
            ''/zk/ca/vt/tablets/0000000002/action/0000000001 {}'',
            ''/zk/ca/vt/tablets/0000000002/action/0000000002 {}'',
            ''/zk/ca/vt/tablets/0000000003/action/0000000001 {}'',
            ''/zk/ca/vt/tablets/0000000003/action/0000000002 {}'']"
proof -
  let ?shardNodes = "[(''/zk/global/vt/keyspaces/ks/shards/0/action/0000000001'', ''{}''),
                      (''/zk/global/vt/keyspaces/ks/shards/0/action/0000000002'', ''{}'')]"
  let ?aliases = "[TabletAlias ''ca'' 2, TabletAlias ''ca'' 1, TabletAlias ''ca'' 3]"
  let ?R = "[(''/zk/ca/vt/tablets/0000000002/action/0000000001'', ''{}''),
             (''/zk/ca/vt/tablets/0000000002/action/0000000002'', ''{}''),
             (''/zk/ca/vt/tablets/0000000001/action/0000000001'', ''{}''),
             (''/zk/ca/vt/tablets/0000000001/action/0000000002'', ''{}''),
             (''/zk/ca/vt/tablets/0000000003/action/0000000001'', ''{}''),
             (''/zk/ca/vt/tablets/0000000003/action/0000000002'', ''{}'')]"
  have shard: "fst (getActions demo (zkts_ShardActionPath demo ''ks'' ''0'') demoWorld)
                 = Inr ?shardNodes"
    by (simp add: getActions_eq fetchNode_def demo_def)
  have find: "naming_FindAllTabletAliasesInShard demo ''ks'' ''0'' (zk demoWorld) = Inr ?aliases"
    by (simp add: demo_def)
  have perm: "\<forall>xs. mset (sched demo xs) = mset xs"
    by (simp add: demo_def)
  have R: "replicaNodes demo (zk demoWorld) (map (zktopo_TabletActionPathForAlias demo) ?aliases)
             = ?R"
    by (simp add: replicaNodes_def fetchNode_def demo_def)
  have np: "node_Path demo = fst" and fa: "fmtAction demo = (\<lambda>n. fst n @ '' '' @ snd n)"
    by (simp_all add: demo_def)
  have "distinct (map fst ?R)" by simp
  then have inj: "inj_on fst (set ?R)" by (simp only: distinct_map)
  have srt: "sort_key fst (remdups ?R) =
            [(''/zk/ca/vt/tablets/0000000001/action/0000000001'', ''{}''),
             (''/zk/ca/vt/tablets/0000000001/action/0000000002'', ''{}''),
             (''/zk/ca/vt/tablets/0000000002/action/0000000001'', ''{}''),
             (''/zk/ca/vt/tablets/0000000002/action/0000000002'', ''{}''),
             (''/zk/ca/vt/tablets/0000000003/action/0000000001'', ''{}''),
             (''/zk/ca/vt/tablets/0000000003/action/0000000002'', ''{}'')]"
    by simp
  have s0: "stdout demoWorld = []" by (simp add: demoWorld_def)
  from listActionsByShard_output[OF shard find perm]
  obtain T w' where run: "listActionsByShard demo ZkTopologyServer ''ks'' ''0'' demoWorld = (None, w')"
    and out: "stdout w' = stdout demoWorld @ map (fmtAction demo) ?shardNodes
                            @ map (fmtAction demo) T"
    and T: "inj_on (node_Path demo) (set ?R) \<longrightarrow> T = sort_key (node_Path demo) (remdups ?R)"
    unfolding R by blast
  from T inj have "T = sort_key fst (remdups ?R)" unfolding np by simp
  then have T': "T = [(''/zk/ca/vt/tablets/0000000001/action/0000000001'', ''{}''),
             (''/zk/ca/vt/tablets/0000000001/action/0000000002'', ''{}''),
             (''/zk/ca/vt/tablets/0000000002/action/0000000001'', ''{}''),
             (''/zk/ca/vt/tablets/0000000002/action/0000000002'', ''{}''),
             (''/zk/ca/vt/tablets/0000000003/action/0000000001'', ''{}''),
             (''/zk/ca/vt/tablets/0000000003/action/0000000002'', ''{}'')]"
    by (simp only: srt)
  from out have "stdout w' =
           [''/zk/global/vt/keyspaces/ks/shards/0/action/0000000001 {}'',
            ''/zk/global/vt/keyspaces/ks/shards/0/action/0000000002 {}'',
            ''/zk/ca/vt/tablets/0000000001/action/0000000001 {}'',
            ''/zk/ca/vt/tablets/0000000001/action/0000000002 {}'',
            ''/zk/ca/vt/tablets/0000000002/action/0000000001 {}'',
            ''/zk/ca/vt/tablets/0000000002/action/0000000002 {}'',
            ''/zk/ca/vt/tablets/0000000003/action/0000000001 {}'',
            ''/zk/ca/vt/tablets/0000000003/action/0000000002 {}'']"
    unfolding T' fa s0 by simp
  with run show ?thesis by blast
qed


end
